theory Spec2Isabelle
  imports Main
begin

section \<open>The Firecrawl process manager (src/firecrawl/processManager.ts)\<close>

text \<open>
  The class \<^verbatim>\<open>FirecrawlProcessManager\<close> starts a Redis broker, a queue worker and an
  API server as child processes, polls the API server until it answers, and stops the
  children again. Its methods are \<^verbatim>\<open>async\<close> functions that run one after another on
  the single JavaScript thread; the model passes the manager's state through them.
  Calls of \<^verbatim>\<open>start\<close> and \<^verbatim>\<open>stop\<close> are modelled as running to completion one at a
  time. Time is a logical clock in milliseconds that advances at every \<^verbatim>\<open>await\<close> of a
  timer, a child-process event or a network answer.
\<close>

subsection \<open>What the Node.js runtime provides\<close>

datatype signal = SIGTERM | SIGKILL

datatype proc_name = ApiServer | Workers | Redis

text \<open>
  A \<^verbatim>\<open>ChildProcess\<close> object. \<open>killed\<close> is Node's \<^verbatim>\<open>subprocess.killed\<close>: it is set
  when \<^verbatim>\<open>kill()\<close> has delivered a signal, whatever the signal and whether or not the
  process ended. \<open>exited\<close> says that the operating-system process is gone (it never
  ran, or its \<^verbatim>\<open>'exit'\<close> event has been emitted). \<open>term_exit_after\<close> is the behaviour
  of the program that runs in the process: \<open>Some d\<close> when it exits \<open>d\<close> milliseconds
  after a delivered SIGTERM, \<open>None\<close> when it ignores SIGTERM.
\<close>

record child_process =
  killed :: bool
  exited :: bool
  term_exit_after :: "nat option"

text \<open>
  \<^verbatim>\<open>subprocess.kill(signal)\<close>: when the process is gone nothing is sent, the call
  returns false and \<open>killed\<close> keeps its value; otherwise the signal is delivered, the
  call returns true and \<open>killed\<close> becomes true. SIGKILL cannot be ignored: a process
  that receives it is gone. A signal that the operating system refuses to deliver to a
  living child is not modelled.
\<close>

definition kill :: "signal \<Rightarrow> child_process \<Rightarrow> child_process" where
  "kill sig p =
     (if exited p then p
      else p\<lparr>killed := True, exited := (sig = SIGKILL)\<rparr>)"

definition kill_returns :: "child_process \<Rightarrow> bool" where
  "kill_returns p = (\<not> exited p)"

text \<open>
  The outcome of one \<^verbatim>\<open>fetch\<close>: a response with its HTTP status, or a rejected promise
  (connection refused, timeout, abort). \<^verbatim>\<open>response.ok\<close> is true for the statuses 200
  to 299.
\<close>

datatype fetch_result = Response nat | FetchFailed

fun response_ok :: "nat \<Rightarrow> bool" where
  "response_ok status = (200 \<le> status \<and> status \<le> 299)"

text \<open>A number inside a template literal: its decimal digits.\<close>

definition digit_char :: "nat \<Rightarrow> char" where
  "digit_char d = char_of (48 + d)"

function string_of_nat :: "nat \<Rightarrow> string" where
  "string_of_nat n =
     (if n < 10 then [digit_char n]
      else string_of_nat (n div 10) @ [digit_char (n mod 10)])"
  by pat_completeness auto
termination
  by (relation "measure (\<lambda>n. n)") auto

subsection \<open>Errors and results\<close>

datatype error_code = InternalError

datatype error = McpError error_code string

text \<open>
  What awaiting a promise gives: it resolves, it rejects with an error, or it never
  settles.
\<close>

datatype outcome = Resolved | Rejected error | Pending

subsection \<open>The manager's state\<close>

text \<open>
  The first four fields are the fields of the class (\<^verbatim>\<open>config\<close> holds the port and the
  paths, which no property below depends on). \<open>clock\<close>, \<open>trace\<close> and \<open>fetches\<close>
  observe the run: the time, the time-stamped calls made so far and the number of HTTP
  requests sent.
\<close>

datatype event =
    Spawned proc_name
  | Kill proc_name signal bool
  | RedisAlreadyRunning
  | RedisReady

record manager =
  redisProcess :: "child_process option"
  workerProcess :: "child_process option"
  apiProcess :: "child_process option"
  isShuttingDown :: bool
  clock :: nat
  trace :: "(nat \<times> event) list"
  fetches :: nat

definition new_manager :: manager where
  "new_manager =
     \<lparr>redisProcess = None, workerProcess = None, apiProcess = None,
      isShuttingDown = False, clock = 0, trace = [], fetches = 0\<rparr>"

definition emit :: "event \<Rightarrow> manager \<Rightarrow> manager" where
  "emit e w = w\<lparr>trace := trace w @ [(clock w, e)]\<rparr>"

text \<open>\<^verbatim>\<open>await this.delay(ms)\<close>, and every other wait of \<open>ms\<close> milliseconds.\<close>

definition delay :: "nat \<Rightarrow> manager \<Rightarrow> manager" where
  "delay ms w = w\<lparr>clock := clock w + ms\<rparr>"

subsection \<open>stop\<close>

definition grace_ms :: nat where
  "grace_ms = 5000"

text \<open>
  The callback of the grace timer (lines 71 to 77): it sends SIGKILL only when
  \<^verbatim>\<open>process.killed\<close> is still false.
\<close>

definition on_timeout :: "proc_name \<Rightarrow> child_process \<Rightarrow> manager \<Rightarrow> child_process \<times> manager" where
  "on_timeout name p w =
     (if \<not> killed p
      then (kill SIGKILL p, emit (Kill name SIGKILL (kill_returns p)) w)
      else (p, w))"

text \<open>
  The awaited promise of lines 70 to 83, entered after \<^verbatim>\<open>kill('SIGTERM')\<close>. The
  \<^verbatim>\<open>'exit'\<close> listener runs when the process, still there and having received SIGTERM,
  exits before the timer; it clears the timer. Otherwise the timer fires after
  \<open>grace_ms\<close> (an exit at exactly \<open>grace_ms\<close> counts as later than the timer). A
  process that was gone before the listener was attached emits no further \<^verbatim>\<open>'exit'\<close>
  event.
\<close>

definition await_exit :: "proc_name \<Rightarrow> child_process \<Rightarrow> manager \<Rightarrow> child_process \<times> manager" where
  "await_exit name p w =
     (case (if exited p then None else term_exit_after p) of
        Some d \<Rightarrow>
          if d < grace_ms then (p\<lparr>exited := True\<rparr>, delay d w)
          else on_timeout name p (delay grace_ms w)
      | None \<Rightarrow> on_timeout name p (delay grace_ms w))"

text \<open>The body of the loop of lines 64 to 85, for one entry of \<^verbatim>\<open>processes\<close>.\<close>

definition terminate :: "proc_name \<Rightarrow> child_process option \<Rightarrow> manager \<Rightarrow> child_process option \<times> manager" where
  "terminate name po w =
     (case po of
        None \<Rightarrow> (None, w)
      | Some p \<Rightarrow>
          if killed p then (Some p, w)
          else
            (let w1 = emit (Kill name SIGTERM (kill_returns p)) w;
                 (p2, w2) = await_exit name (kill SIGTERM p) w1
             in (Some p2, w2)))"

definition stop :: "manager \<Rightarrow> manager" where
  "stop w =
     (if isShuttingDown w then w
      else
        (let w0 = w\<lparr>isShuttingDown := True\<rparr>;
             (a, w1) = terminate ApiServer (apiProcess w0) w0;
             (b, w2) = terminate Workers (workerProcess w0) w1;
             (c, w3) = terminate Redis (redisProcess w0) w2
         in w3\<lparr>apiProcess := a, workerProcess := b, redisProcess := c\<rparr>))"

subsection \<open>start\<close>

text \<open>
  The environment of one call of \<^verbatim>\<open>start\<close>: how \<^verbatim>\<open>redis-cli ping\<close> ends (exit code
  and time, \<open>None\<close> when it emits no \<^verbatim>\<open>'exit'\<close> event), the first decisive event of
  the spawned \<^verbatim>\<open>redis-server\<close> with its time after the spawn, the programs that the
  three calls of \<^verbatim>\<open>spawn\<close> launch, and the answer and duration of the \<open>n\<close>-th HTTP
  request. An exit code is \<open>None\<close> for JavaScript's \<^verbatim>\<open>null\<close> (the process was ended by
  a signal). An event of \<^verbatim>\<open>redis-server\<close> that comes after the 10 second timer finds
  the promise already rejected.
\<close>

datatype redis_startup =
    ReadyLine nat
  | ErrorEvent string nat
  | ExitEvent "nat option" nat
  | Silent

text \<open>
  The program that each \<^verbatim>\<open>spawn\<close> launches is described by a \<open>child_process\<close>
  value of the environment; \<open>exited\<close> is already true there for a program that could
  not be launched or that is gone by the time \<^verbatim>\<open>stop\<close> looks at it.
\<close>

record env =
  ping :: "(nat option \<times> nat) option"
  redis_server :: redis_startup
  redis_child :: child_process
  worker_child :: child_process
  api_child :: child_process
  responses :: "nat \<Rightarrow> fetch_result"
  latency :: "nat \<Rightarrow> nat"

text \<open>\<^verbatim>\<open>spawn(...)\<close> returns a new object: its \<^verbatim>\<open>killed\<close> is false.\<close>

definition spawn :: "child_process \<Rightarrow> child_process" where
  "spawn p = p\<lparr>killed := False\<rparr>"

definition redis_timeout_ms :: nat where
  "redis_timeout_ms = 10000"

definition redis_timed_out :: "manager \<Rightarrow> outcome \<times> manager" where
  "redis_timed_out w =
     (Rejected (McpError InternalError ''Redis failed to start within 10 seconds''),
      delay redis_timeout_ms w)"

definition exit_code_string :: "nat option \<Rightarrow> string" where
  "exit_code_string c = (case c of None \<Rightarrow> ''null'' | Some n \<Rightarrow> string_of_nat n)"

definition gone :: "child_process \<Rightarrow> child_process" where
  "gone p = p\<lparr>exited := True\<rparr>"

definition startRedis :: "env \<Rightarrow> manager \<Rightarrow> outcome \<times> manager" where
  "startRedis e w =
     (case ping e of
        None \<Rightarrow> (Pending, w)
      | Some (code, t) \<Rightarrow>
          if code = Some 0 then (Resolved, emit RedisAlreadyRunning (delay t w))
          else
            (let w1 = (emit (Spawned Redis) (delay t w))\<lparr>redisProcess := Some (spawn (redis_child e))\<rparr>
             in case redis_server e of
                  ReadyLine d \<Rightarrow>
                    if d < redis_timeout_ms then (Resolved, emit RedisReady (delay d w1))
                    else redis_timed_out w1
                | ErrorEvent msg d \<Rightarrow>
                    if d < redis_timeout_ms
                    then (Rejected (McpError InternalError
                            (''Failed to start Redis: '' @ msg @ ''. Make sure Redis is installed.'')),
                          (delay d w1)\<lparr>redisProcess := Some (gone (spawn (redis_child e)))\<rparr>)
                    else redis_timed_out w1
                | ExitEvent c d \<Rightarrow>
                    if d < redis_timeout_ms
                    then
                      (if c \<noteq> Some 0 \<and> \<not> isShuttingDown w
                       then (Rejected (McpError InternalError
                               (''Redis exited with code '' @ exit_code_string c)),
                             (delay d w1)\<lparr>redisProcess := Some (gone (spawn (redis_child e)))\<rparr>)
                       else redis_timed_out (w1\<lparr>redisProcess := Some (gone (spawn (redis_child e)))\<rparr>))
                    else redis_timed_out w1
                | Silent \<Rightarrow> redis_timed_out w1))"

text \<open>
  \<^verbatim>\<open>startWorkers\<close> and \<^verbatim>\<open>startApiServer\<close> store the object that \<^verbatim>\<open>spawn\<close> returns
  and attach listeners. The \<^verbatim>\<open>throw\<close> of their \<^verbatim>\<open>'error'\<close> listeners runs later, in
  the event loop, outside the \<^verbatim>\<open>try\<close> block of \<^verbatim>\<open>start\<close>: neither function has a
  failing branch that \<^verbatim>\<open>start\<close> can catch.
\<close>

definition startWorkers :: "env \<Rightarrow> manager \<Rightarrow> manager" where
  "startWorkers e w = (emit (Spawned Workers) w)\<lparr>workerProcess := Some (spawn (worker_child e))\<rparr>"

definition startApiServer :: "env \<Rightarrow> manager \<Rightarrow> manager" where
  "startApiServer e w = (emit (Spawned ApiServer) w)\<lparr>apiProcess := Some (spawn (api_child e))\<rparr>"

text \<open>One \<^verbatim>\<open>await fetch(...)\<close>: the answer of the environment, after its duration.\<close>

definition fetch :: "env \<Rightarrow> manager \<Rightarrow> fetch_result \<times> manager" where
  "fetch e w =
     (responses e (fetches w),
      (delay (latency e (fetches w)) w)\<lparr>fetches := fetches w + 1\<rparr>)"

definition fetch_ok :: "fetch_result \<Rightarrow> bool" where
  "fetch_ok r = (case r of Response status \<Rightarrow> response_ok status | FetchFailed \<Rightarrow> False)"

definition readiness_error :: "nat \<Rightarrow> error" where
  "readiness_error maxAttempts =
     McpError InternalError
       (''Firecrawl API server failed to respond after '' @ string_of_nat maxAttempts @ '' seconds'')"

text \<open>
  The loop of \<^verbatim>\<open>waitForServices\<close> (lines 208 to 226), with the loop variable
  \<open>attempt\<close> and the bound \<open>maxAttempts\<close> as arguments.
\<close>

function waitForServices_loop :: "env \<Rightarrow> nat \<Rightarrow> nat \<Rightarrow> manager \<Rightarrow> outcome \<times> manager" where
  "waitForServices_loop e maxAttempts attempt w =
     (if attempt \<le> maxAttempts then
        (let (r, w1) = fetch e w in
         if fetch_ok r then (Resolved, w1)
         else if attempt = maxAttempts then (Rejected (readiness_error maxAttempts), w1)
         else waitForServices_loop e maxAttempts (attempt + 1) (delay 1000 w1))
      else (Resolved, w))"
  by pat_completeness auto
termination
  by (relation "measure (\<lambda>(e, maxAttempts, attempt, w). maxAttempts + 1 - attempt)") auto

definition waitForServices :: "env \<Rightarrow> manager \<Rightarrow> outcome \<times> manager" where
  "waitForServices e w = waitForServices_loop e 30 1 w"

definition start :: "env \<Rightarrow> manager \<Rightarrow> outcome \<times> manager" where
  "start e w =
     (case startRedis e w of
        (Pending, w1) \<Rightarrow> (Pending, w1)
      | (Rejected err, w1) \<Rightarrow> (Rejected err, stop w1)
      | (Resolved, w1) \<Rightarrow>
          (let w2 = delay 2000 w1;
               w3 = startWorkers e w2;
               w4 = startApiServer e w3
           in case waitForServices e w4 of
                (Rejected err, w5) \<Rightarrow> (Rejected err, stop w5)
              | (r, w5) \<Rightarrow> (r, w5)))"

text \<open>
  The state in which \<^verbatim>\<open>start\<close> begins to poll: after \<^verbatim>\<open>startRedis\<close>, the delay of
  line 34, \<^verbatim>\<open>startWorkers\<close> and \<^verbatim>\<open>startApiServer\<close>.
\<close>

definition spawned_all :: "env \<Rightarrow> manager \<Rightarrow> manager" where
  "spawned_all e w = startApiServer e (startWorkers e (delay 2000 (snd (startRedis e w))))"

subsection \<open>healthCheck\<close>

text \<open>
  \<^verbatim>\<open>healthCheck\<close> of the manager (lines 233 to 243) and of the client
  (client.ts, lines 155 to 165): one \<^verbatim>\<open>fetch\<close> inside \<^verbatim>\<open>try\<close>, whose \<^verbatim>\<open>catch\<close>
  returns false. The result is a sum to make the absence of a rejection a statement.
\<close>

definition healthCheck :: "env \<Rightarrow> manager \<Rightarrow> (error + bool) \<times> manager" where
  "healthCheck e w =
     (let (r, w1) = fetch e w in
      case r of
        Response status \<Rightarrow> (Inr (response_ok status), w1)
      | FetchFailed \<Rightarrow> (Inr False, w1))"

definition client_healthCheck :: "env \<Rightarrow> manager \<Rightarrow> (error + bool) \<times> manager" where
  "client_healthCheck e w =
     (let (r, w1) = fetch e w in
      case r of
        Response status \<Rightarrow> (Inr (response_ok status), w1)
      | FetchFailed \<Rightarrow> (Inr False, w1))"

subsection \<open>Sequences of calls and observations of a run\<close>

datatype call = Start env | Stop

fun run :: "call list \<Rightarrow> manager \<Rightarrow> manager" where
  "run [] w = w"
| "run (Start e # cs) w = run cs (snd (start e w))"
| "run (Stop # cs) w = run cs (stop w)"

fun is_kill :: "event \<Rightarrow> bool" where
  "is_kill (Kill name sig delivered) = True"
| "is_kill ev = False"

text \<open>The calls of \<^verbatim>\<open>kill\<close> in a trace, and the events that a trace gained since a state.\<close>

definition kills :: "(nat \<times> event) list \<Rightarrow> (nat \<times> event) list" where
  "kills tr = filter (\<lambda>x. is_kill (snd x)) tr"

definition events_since :: "manager \<Rightarrow> manager \<Rightarrow> (nat \<times> event) list" where
  "events_since w w' = drop (length (trace w)) (trace w')"

text \<open>
  How long the loop body of \<^verbatim>\<open>stop\<close> waits for one entry: nothing for an absent or
  already signalled process, the time to its exit for a process that exits on SIGTERM
  within the grace period, the whole grace period otherwise.
\<close>

definition grace_wait :: "child_process option \<Rightarrow> nat" where
  "grace_wait po =
     (case po of
        None \<Rightarrow> 0
      | Some p \<Rightarrow>
          if killed p then 0
          else if exited p then grace_ms
          else (case term_exit_after p of
                  Some d \<Rightarrow> if d < grace_ms then d else grace_ms
                | None \<Rightarrow> grace_ms))"

text \<open>
  The calls of \<^verbatim>\<open>kill\<close> that the loop body of \<^verbatim>\<open>stop\<close> makes for one entry when it
  starts at time \<open>t\<close>: none for an absent or already signalled process; SIGTERM at \<open>t\<close>
  otherwise, followed by SIGKILL at the end of the grace period only for a process that
  was already gone at \<open>t\<close> (neither call delivers anything then).
\<close>

definition term_events :: "proc_name \<Rightarrow> child_process option \<Rightarrow> nat \<Rightarrow> (nat \<times> event) list" where
  "term_events name po t =
     (case po of
        None \<Rightarrow> []
      | Some p \<Rightarrow>
          if killed p then []
          else if exited p
               then [(t, Kill name SIGTERM False), (t + grace_ms, Kill name SIGKILL False)]
               else [(t, Kill name SIGTERM True)])"

text \<open>A process that the manager holds and that is still there.\<close>

definition left_running :: "child_process option \<Rightarrow> bool" where
  "left_running po = (case po of None \<Rightarrow> False | Some p \<Rightarrow> \<not> exited p)"

text \<open>A process that exits on SIGTERM before the grace timer fires.\<close>

definition honours_sigterm :: "child_process option \<Rightarrow> bool" where
  "honours_sigterm po =
     (case po of
        None \<Rightarrow> False
      | Some p \<Rightarrow> (case term_exit_after p of Some d \<Rightarrow> d < grace_ms | None \<Rightarrow> False))"

definition was_signalled :: "child_process option \<Rightarrow> bool" where
  "was_signalled po = (case po of None \<Rightarrow> False | Some p \<Rightarrow> killed p)"

text \<open>No process that the manager holds has been sent a signal.\<close>

definition unsignalled :: "manager \<Rightarrow> bool" where
  "unsignalled w =
     (\<not> was_signalled (apiProcess w) \<and> \<not> was_signalled (workerProcess w) \<and>
      \<not> was_signalled (redisProcess w))"

text \<open>
  A monitor for the order of the stages in a trace. Its state is the time at which the
  broker was found alive (\<^verbatim>\<open>redis-cli ping\<close> succeeded, or the spawned server printed
  its ready line), if it was, and whether the workers have been spawned. It rejects a
  trace in which the workers are spawned before the broker is alive and 2000 ms have
  passed since, or the API server before the workers.
\<close>

definition settle_ms :: nat where
  "settle_ms = 2000"

fun stage_order :: "nat option \<Rightarrow> bool \<Rightarrow> (nat \<times> event) list \<Rightarrow> bool" where
  "stage_order live wk [] = True"
| "stage_order live wk ((t, RedisAlreadyRunning) # evs) = stage_order (Some t) wk evs"
| "stage_order live wk ((t, RedisReady) # evs) = stage_order (Some t) wk evs"
| "stage_order live wk ((t, Spawned Workers) # evs) =
     ((case live of None \<Rightarrow> False | Some t0 \<Rightarrow> t0 + settle_ms \<le> t) \<and> stage_order live True evs)"
| "stage_order live wk ((t, Spawned ApiServer) # evs) = (wk \<and> stage_order live wk evs)"
| "stage_order live wk ((t, Spawned Redis) # evs) = stage_order live wk evs"
| "stage_order live wk ((t, Kill name sig delivered) # evs) = stage_order live wk evs"

subsection \<open>Concrete programs, environments and states\<close>

text \<open>A program that exits 100 ms after SIGTERM, and one that ignores SIGTERM.\<close>

definition obedient :: child_process where
  "obedient = \<lparr>killed = False, exited = False, term_exit_after = Some 100\<rparr>"

definition stubborn :: child_process where
  "stubborn = \<lparr>killed = False, exited = False, term_exit_after = None\<rparr>"

text \<open>
  Environments: Redis already runs and the API server answers 200 at once; Redis already
  runs and every request is refused at once; the same with requests that fail after
  3000 ms each; the same with workers and an API server that ignore SIGTERM; and a Redis
  server that has to be spawned and prints its ready line.
\<close>

definition env_up :: env where
  "env_up =
     \<lparr>ping = Some (Some 0, 10), redis_server = Silent, redis_child = obedient,
      worker_child = obedient, api_child = obedient,
      responses = (\<lambda>n. Response 200), latency = (\<lambda>n. 0)\<rparr>"

definition env_refused :: env where
  "env_refused =
     \<lparr>ping = Some (Some 0, 10), redis_server = Silent, redis_child = obedient,
      worker_child = obedient, api_child = obedient,
      responses = (\<lambda>n. FetchFailed), latency = (\<lambda>n. 0)\<rparr>"

definition env_slow :: env where
  "env_slow =
     \<lparr>ping = Some (Some 0, 10), redis_server = Silent, redis_child = obedient,
      worker_child = obedient, api_child = obedient,
      responses = (\<lambda>n. FetchFailed), latency = (\<lambda>n. 3000)\<rparr>"

definition env_stubborn :: env where
  "env_stubborn =
     \<lparr>ping = Some (Some 0, 10), redis_server = Silent, redis_child = stubborn,
      worker_child = stubborn, api_child = stubborn,
      responses = (\<lambda>n. FetchFailed), latency = (\<lambda>n. 0)\<rparr>"

definition env_spawn_redis :: env where
  "env_spawn_redis =
     \<lparr>ping = Some (Some 1, 10), redis_server = ReadyLine 300, redis_child = obedient,
      worker_child = obedient, api_child = obedient,
      responses = (\<lambda>n. if n < 3 then Response 503 else Response 200), latency = (\<lambda>n. 5)\<rparr>"

text \<open>States: three running processes that ignore SIGTERM; one such API server; three
  processes that exit on SIGTERM.\<close>

definition three_stubborn :: manager where
  "three_stubborn =
     \<lparr>redisProcess = Some stubborn, workerProcess = Some stubborn, apiProcess = Some stubborn,
      isShuttingDown = False, clock = 0, trace = [], fetches = 0\<rparr>"

definition one_stubborn :: manager where
  "one_stubborn =
     \<lparr>redisProcess = None, workerProcess = None, apiProcess = Some stubborn,
      isShuttingDown = False, clock = 0, trace = [], fetches = 0\<rparr>"

definition three_obedient :: manager where
  "three_obedient =
     \<lparr>redisProcess = Some obedient, workerProcess = Some obedient, apiProcess = Some obedient,
      isShuttingDown = False, clock = 0, trace = [], fetches = 0\<rparr>"

section \<open>Properties\<close>

subsection \<open>The fields after each step\<close>

declare waitForServices_loop.simps [simp del]
declare string_of_nat.simps [simp del]

lemma emit_fields [simp]:
  "redisProcess (emit ev w) = redisProcess w"
  "workerProcess (emit ev w) = workerProcess w"
  "apiProcess (emit ev w) = apiProcess w"
  "isShuttingDown (emit ev w) = isShuttingDown w"
  "clock (emit ev w) = clock w"
  "fetches (emit ev w) = fetches w"
  "trace (emit ev w) = trace w @ [(clock w, ev)]"
  by (simp_all add: emit_def)

lemma delay_fields [simp]:
  "redisProcess (delay ms w) = redisProcess w"
  "workerProcess (delay ms w) = workerProcess w"
  "apiProcess (delay ms w) = apiProcess w"
  "isShuttingDown (delay ms w) = isShuttingDown w"
  "clock (delay ms w) = clock w + ms"
  "fetches (delay ms w) = fetches w"
  "trace (delay ms w) = trace w"
  by (simp_all add: delay_def)

lemma fetch_fields [simp]:
  "fst (fetch e w) = responses e (fetches w)"
  "redisProcess (snd (fetch e w)) = redisProcess w"
  "workerProcess (snd (fetch e w)) = workerProcess w"
  "apiProcess (snd (fetch e w)) = apiProcess w"
  "isShuttingDown (snd (fetch e w)) = isShuttingDown w"
  "clock (snd (fetch e w)) = clock w + latency e (fetches w)"
  "fetches (snd (fetch e w)) = fetches w + 1"
  "trace (snd (fetch e w)) = trace w"
  by (simp_all add: fetch_def)

subsection \<open>One termination\<close>

lemma on_timeout_frame [simp]:
  "redisProcess (snd (on_timeout n p w)) = redisProcess w"
  "workerProcess (snd (on_timeout n p w)) = workerProcess w"
  "apiProcess (snd (on_timeout n p w)) = apiProcess w"
  "isShuttingDown (snd (on_timeout n p w)) = isShuttingDown w"
  "clock (snd (on_timeout n p w)) = clock w"
  "fetches (snd (on_timeout n p w)) = fetches w"
  by (simp_all add: on_timeout_def)

lemma await_exit_frame [simp]:
  "redisProcess (snd (await_exit n p w)) = redisProcess w"
  "workerProcess (snd (await_exit n p w)) = workerProcess w"
  "apiProcess (snd (await_exit n p w)) = apiProcess w"
  "isShuttingDown (snd (await_exit n p w)) = isShuttingDown w"
  "fetches (snd (await_exit n p w)) = fetches w"
  by (simp_all add: await_exit_def split: option.splits)

lemma terminate_frame [simp]:
  "redisProcess (snd (terminate n po w)) = redisProcess w"
  "workerProcess (snd (terminate n po w)) = workerProcess w"
  "apiProcess (snd (terminate n po w)) = apiProcess w"
  "isShuttingDown (snd (terminate n po w)) = isShuttingDown w"
  "fetches (snd (terminate n po w)) = fetches w"
  by (simp_all add: terminate_def case_prod_beta Let_def split: option.splits)

lemma terminate_clock:
  "clock (snd (terminate n po w)) = clock w + grace_wait po"
  by (simp add: terminate_def await_exit_def grace_wait_def kill_def case_prod_beta Let_def
      split: option.splits)

lemma terminate_events:
  "trace (snd (terminate n po w)) = trace w @ term_events n po (clock w)"
  by (simp add: terminate_def await_exit_def on_timeout_def kill_def kill_returns_def
      term_events_def case_prod_beta Let_def split: option.splits)

lemma grace_wait_le: "grace_wait po \<le> grace_ms"
  by (simp add: grace_wait_def split: option.splits)

lemma on_timeout_trace:
  "\<exists>ks. trace (snd (on_timeout n p w)) = trace w @ ks \<and> (\<forall>x\<in>set ks. is_kill (snd x))"
  by (simp add: on_timeout_def)

lemma await_exit_trace:
  "\<exists>ks. trace (snd (await_exit n p w)) = trace w @ ks \<and> (\<forall>x\<in>set ks. is_kill (snd x))"
  using on_timeout_trace[of n p "delay grace_ms w"]
  by (simp add: await_exit_def split: option.splits)

lemma terminate_trace:
  "\<exists>ks. trace (snd (terminate n po w)) = trace w @ ks \<and> (\<forall>x\<in>set ks. is_kill (snd x))"
proof (cases po)
  case None
  then show ?thesis by (simp add: terminate_def)
next
  case (Some p)
  show ?thesis
  proof (cases "killed p")
    case True
    with Some show ?thesis by (simp add: terminate_def)
  next
    case False
    let ?w1 = "emit (Kill n SIGTERM (kill_returns p)) w"
    obtain ks where ks: "trace (snd (await_exit n (kill SIGTERM p) ?w1)) = trace ?w1 @ ks"
      "\<forall>x\<in>set ks. is_kill (snd x)"
      using await_exit_trace by blast
    have "trace (snd (terminate n po w)) = trace w @ ((clock w, Kill n SIGTERM (kill_returns p)) # ks)"
      using Some False ks(1) by (simp add: terminate_def case_prod_beta Let_def)
    moreover have "\<forall>x\<in>set ((clock w, Kill n SIGTERM (kill_returns p)) # ks). is_kill (snd x)"
      using ks(2) by simp
    ultimately show ?thesis by blast
  qed
qed

lemma terminate_defined: "(fst (terminate n po w) = None) = (po = None)"
  by (simp add: terminate_def case_prod_beta Let_def split: option.splits)

lemma terminate_result:
  "\<not> was_signalled po \<Longrightarrow> left_running (fst (terminate n po w)) \<Longrightarrow>
   was_signalled (fst (terminate n po w)) \<and> \<not> honours_sigterm (fst (terminate n po w))"
  by (auto simp add: terminate_def await_exit_def on_timeout_def kill_def was_signalled_def
      left_running_def honours_sigterm_def case_prod_beta Let_def
      split: option.splits if_splits)

lemma terminate_sigkill:
  "(t, Kill m SIGKILL True) \<notin> set (trace w) \<Longrightarrow>
   (t, Kill m SIGKILL True) \<notin> set (trace (snd (terminate n po w)))"
  by (simp add: terminate_def await_exit_def on_timeout_def kill_def kill_returns_def
      case_prod_beta Let_def split: option.splits)

subsection \<open>Facts about stop\<close>

lemma stop_unfold:
  "\<not> isShuttingDown w \<Longrightarrow>
   stop w =
     (snd (terminate Redis (redisProcess w)
        (snd (terminate Workers (workerProcess w)
           (snd (terminate ApiServer (apiProcess w) (w\<lparr>isShuttingDown := True\<rparr>)))))))
     \<lparr>apiProcess := fst (terminate ApiServer (apiProcess w) (w\<lparr>isShuttingDown := True\<rparr>)),
      workerProcess := fst (terminate Workers (workerProcess w)
           (snd (terminate ApiServer (apiProcess w) (w\<lparr>isShuttingDown := True\<rparr>)))),
      redisProcess := fst (terminate Redis (redisProcess w)
        (snd (terminate Workers (workerProcess w)
           (snd (terminate ApiServer (apiProcess w) (w\<lparr>isShuttingDown := True\<rparr>))))))\<rparr>"
  by (simp add: stop_def case_prod_beta Let_def)

lemma stop_noop: "isShuttingDown w \<Longrightarrow> stop w = w"
  by (simp add: stop_def)

lemma stop_sets_flag: "isShuttingDown (stop w)"
  by (cases "isShuttingDown w") (simp_all add: stop_noop stop_unfold)

lemma stop_fetches: "fetches (stop w) = fetches w"
  by (cases "isShuttingDown w") (simp_all add: stop_noop stop_unfold)

lemma stop_clock:
  "\<not> isShuttingDown w \<Longrightarrow>
   clock (stop w) =
     clock w + grace_wait (apiProcess w) + grace_wait (workerProcess w) + grace_wait (redisProcess w)"
  by (simp add: stop_unfold terminate_clock)

lemma stop_events:
  "\<not> isShuttingDown w \<Longrightarrow>
   trace (stop w) =
     trace w @
       (term_events ApiServer (apiProcess w) (clock w) @
        term_events Workers (workerProcess w) (clock w + grace_wait (apiProcess w)) @
        term_events Redis (redisProcess w)
          (clock w + grace_wait (apiProcess w) + grace_wait (workerProcess w)))"
  by (simp add: stop_unfold terminate_events terminate_clock)

lemma stop_trace:
  "\<exists>ks. trace (stop w) = trace w @ ks \<and> (\<forall>x\<in>set ks. is_kill (snd x))"
proof (cases "isShuttingDown w")
  case True
  then show ?thesis by (simp add: stop_noop)
next
  case False
  let ?w0 = "w\<lparr>isShuttingDown := True\<rparr>"
  let ?w1 = "snd (terminate ApiServer (apiProcess w) ?w0)"
  let ?w2 = "snd (terminate Workers (workerProcess w) ?w1)"
  let ?w3 = "snd (terminate Redis (redisProcess w) ?w2)"
  obtain k1 where k1: "trace ?w1 = trace ?w0 @ k1" "\<forall>x\<in>set k1. is_kill (snd x)"
    using terminate_trace by blast
  obtain k2 where k2: "trace ?w2 = trace ?w1 @ k2" "\<forall>x\<in>set k2. is_kill (snd x)"
    using terminate_trace by blast
  obtain k3 where k3: "trace ?w3 = trace ?w2 @ k3" "\<forall>x\<in>set k3. is_kill (snd x)"
    using terminate_trace by blast
  have "trace (stop w) = trace w @ (k1 @ k2 @ k3)"
    using False k1(1) k2(1) k3(1) by (simp add: stop_unfold)
  moreover have "\<forall>x\<in>set (k1 @ k2 @ k3). is_kill (snd x)"
    using k1(2) k2(2) k3(2) by auto
  ultimately show ?thesis by blast
qed

lemma stop_defined:
  "(apiProcess (stop w) = None) = (apiProcess w = None)"
  "(workerProcess (stop w) = None) = (workerProcess w = None)"
  "(redisProcess (stop w) = None) = (redisProcess w = None)"
  by (cases "isShuttingDown w"; simp add: stop_noop stop_unfold terminate_defined)+

lemma stop_result:
  assumes "\<not> isShuttingDown w"
  shows "\<not> was_signalled (apiProcess w) \<Longrightarrow> left_running (apiProcess (stop w)) \<Longrightarrow>
           was_signalled (apiProcess (stop w)) \<and> \<not> honours_sigterm (apiProcess (stop w))"
    and "\<not> was_signalled (workerProcess w) \<Longrightarrow> left_running (workerProcess (stop w)) \<Longrightarrow>
           was_signalled (workerProcess (stop w)) \<and> \<not> honours_sigterm (workerProcess (stop w))"
    and "\<not> was_signalled (redisProcess w) \<Longrightarrow> left_running (redisProcess (stop w)) \<Longrightarrow>
           was_signalled (redisProcess (stop w)) \<and> \<not> honours_sigterm (redisProcess (stop w))"
  using assms terminate_result by (simp_all add: stop_unfold)

lemma stop_sigkill:
  "(t, Kill m SIGKILL True) \<notin> set (trace w) \<Longrightarrow>
   (t, Kill m SIGKILL True) \<notin> set (trace (stop w))"
  by (cases "isShuttingDown w") (simp_all add: stop_noop stop_unfold terminate_sigkill)

subsection \<open>Facts about the stages of start\<close>

lemma startRedis_frame [simp]:
  "isShuttingDown (snd (startRedis e w)) = isShuttingDown w"
  "workerProcess (snd (startRedis e w)) = workerProcess w"
  "apiProcess (snd (startRedis e w)) = apiProcess w"
  "fetches (snd (startRedis e w)) = fetches w"
  by (simp_all add: startRedis_def redis_timed_out_def Let_def
      split: option.splits prod.splits redis_startup.splits)

lemma startRedis_defined:
  "redisProcess w \<noteq> None \<Longrightarrow> redisProcess (snd (startRedis e w)) \<noteq> None"
  by (simp add: startRedis_def redis_timed_out_def Let_def
      split: option.splits prod.splits redis_startup.splits)

lemma startRedis_unsignalled:
  "\<not> was_signalled (redisProcess w) \<Longrightarrow> \<not> was_signalled (redisProcess (snd (startRedis e w)))"
  by (simp add: startRedis_def redis_timed_out_def Let_def was_signalled_def spawn_def gone_def
      split: option.splits prod.splits redis_startup.splits)

lemma startRedis_resolved:
  "fst (startRedis e w) = Resolved \<Longrightarrow>
   (\<exists>t. events_since w (snd (startRedis e w)) = [(t, RedisAlreadyRunning)] \<and>
        clock (snd (startRedis e w)) = t) \<or>
   (\<exists>t t'. events_since w (snd (startRedis e w)) = [(t, Spawned Redis), (t', RedisReady)] \<and>
        clock (snd (startRedis e w)) = t')"
  by (simp add: startRedis_def redis_timed_out_def Let_def events_since_def
      split: option.splits prod.splits redis_startup.splits if_splits)

lemma startRedis_not_resolved:
  "fst (startRedis e w) \<noteq> Resolved \<Longrightarrow>
   events_since w (snd (startRedis e w)) = [] \<or>
   (\<exists>t. events_since w (snd (startRedis e w)) = [(t, Spawned Redis)])"
  by (simp add: startRedis_def redis_timed_out_def Let_def events_since_def
      split: option.splits prod.splits redis_startup.splits if_splits)

lemma startRedis_trace:
  "trace (snd (startRedis e w)) = trace w @ events_since w (snd (startRedis e w))"
  by (simp add: startRedis_def redis_timed_out_def Let_def events_since_def
      split: option.splits prod.splits redis_startup.splits if_splits)

lemma startRedis_kills:
  "kills (trace (snd (startRedis e w))) = kills (trace w)"
  by (simp add: startRedis_def redis_timed_out_def Let_def kills_def
      split: option.splits prod.splits redis_startup.splits if_splits)

lemma startRedis_sigkill:
  "(t, Kill m SIGKILL True) \<notin> set (trace w) \<Longrightarrow>
   (t, Kill m SIGKILL True) \<notin> set (trace (snd (startRedis e w)))"
  by (simp add: startRedis_def redis_timed_out_def Let_def
      split: option.splits prod.splits redis_startup.splits)

lemma startWorkers_fields [simp]:
  "trace (startWorkers e w) = trace w @ [(clock w, Spawned Workers)]"
  "isShuttingDown (startWorkers e w) = isShuttingDown w"
  "redisProcess (startWorkers e w) = redisProcess w"
  "workerProcess (startWorkers e w) = Some (spawn (worker_child e))"
  "apiProcess (startWorkers e w) = apiProcess w"
  "clock (startWorkers e w) = clock w"
  "fetches (startWorkers e w) = fetches w"
  by (simp_all add: startWorkers_def)

lemma startApiServer_fields [simp]:
  "trace (startApiServer e w) = trace w @ [(clock w, Spawned ApiServer)]"
  "isShuttingDown (startApiServer e w) = isShuttingDown w"
  "redisProcess (startApiServer e w) = redisProcess w"
  "workerProcess (startApiServer e w) = workerProcess w"
  "apiProcess (startApiServer e w) = Some (spawn (api_child e))"
  "clock (startApiServer e w) = clock w"
  "fetches (startApiServer e w) = fetches w"
  by (simp_all add: startApiServer_def)

lemma spawned_all_fields [simp]:
  "isShuttingDown (spawned_all e w) = isShuttingDown w"
  "workerProcess (spawned_all e w) = Some (spawn (worker_child e))"
  "apiProcess (spawned_all e w) = Some (spawn (api_child e))"
  "redisProcess (spawned_all e w) = redisProcess (snd (startRedis e w))"
  "trace (spawned_all e w) =
     trace (snd (startRedis e w)) @
       [(clock (snd (startRedis e w)) + 2000, Spawned Workers),
        (clock (snd (startRedis e w)) + 2000, Spawned ApiServer)]"
  by (simp_all add: spawned_all_def)

lemma events_since_append: "trace w' = trace w @ xs \<Longrightarrow> events_since w w' = xs"
  by (simp add: events_since_def)

lemma spawned_all_events:
  "events_since w (spawned_all e w) =
     events_since w (snd (startRedis e w)) @
       [(clock (snd (startRedis e w)) + 2000, Spawned Workers),
        (clock (snd (startRedis e w)) + 2000, Spawned ApiServer)]"
proof -
  let ?w1 = "snd (startRedis e w)"
  have "trace (spawned_all e w) =
      trace w @ (events_since w ?w1 @
        [(clock ?w1 + 2000, Spawned Workers), (clock ?w1 + 2000, Spawned ApiServer)])"
    using startRedis_trace[of e w] by simp
  then show ?thesis by (rule events_since_append)
qed

lemma spawned_all_trace:
  "trace (spawned_all e w) = trace w @ events_since w (spawned_all e w)"
  unfolding spawned_all_events using startRedis_trace[of e w] by simp

lemma kills_append: "kills (xs @ ys) = kills xs @ kills ys"
  by (simp add: kills_def)

lemma kills_spawned_all: "kills (trace (spawned_all e w)) = kills (trace (snd (startRedis e w)))"
  by (simp add: kills_append) (simp add: kills_def)

subsection \<open>Facts about the readiness loop\<close>

lemma poll_step:
  "waitForServices_loop e N a w =
     (if a \<le> N then
        (if fetch_ok (fst (fetch e w)) then (Resolved, snd (fetch e w))
         else if a = N then (Rejected (readiness_error N), snd (fetch e w))
         else waitForServices_loop e N (a + 1) (delay 1000 (snd (fetch e w))))
      else (Resolved, w))"
  by (subst waitForServices_loop.simps) (simp add: case_prod_beta Let_def)

lemma poll_frame:
  "trace (snd (waitForServices_loop e N a w)) = trace w \<and>
   isShuttingDown (snd (waitForServices_loop e N a w)) = isShuttingDown w \<and>
   redisProcess (snd (waitForServices_loop e N a w)) = redisProcess w \<and>
   workerProcess (snd (waitForServices_loop e N a w)) = workerProcess w \<and>
   apiProcess (snd (waitForServices_loop e N a w)) = apiProcess w \<and>
   fst (waitForServices_loop e N a w) \<noteq> Pending"
proof (induction "N + 1 - a" arbitrary: a w)
  case 0
  then have "\<not> a \<le> N" by simp
  then have "waitForServices_loop e N a w = (Resolved, w)" by (subst poll_step) simp
  then show ?case by simp
next
  case (Suc n)
  then have le: "a \<le> N" and n: "n = N + 1 - (a + 1)" by simp_all
  note ih = Suc.hyps(1)[OF n, of "delay 1000 (snd (fetch e w))"]
  have "waitForServices_loop e N a w = (Resolved, snd (fetch e w)) \<or>
        waitForServices_loop e N a w = (Rejected (readiness_error N), snd (fetch e w)) \<or>
        waitForServices_loop e N a w = waitForServices_loop e N (a + 1) (delay 1000 (snd (fetch e w)))"
    using le by (subst poll_step, subst poll_step, subst poll_step) simp
  then show ?case using ih by auto
qed

lemma waitForServices_frame [simp]:
  "trace (snd (waitForServices e w)) = trace w"
  "isShuttingDown (snd (waitForServices e w)) = isShuttingDown w"
  "redisProcess (snd (waitForServices e w)) = redisProcess w"
  "workerProcess (snd (waitForServices e w)) = workerProcess w"
  "apiProcess (snd (waitForServices e w)) = apiProcess w"
  "fst (waitForServices e w) \<noteq> Pending"
  using poll_frame[of e 30 1 w] by (simp_all add: waitForServices_def)

lemma poll_all_fail:
  "a + n = N \<Longrightarrow> (\<forall>i. i \<le> n \<longrightarrow> \<not> fetch_ok (responses e (fetches w + i))) \<Longrightarrow>
   fst (waitForServices_loop e N a w) = Rejected (readiness_error N) \<and>
   fetches (snd (waitForServices_loop e N a w)) = fetches w + (n + 1)"
proof (induction n arbitrary: a w)
  case 0
  then show ?case by (subst poll_step, subst poll_step) simp
next
  case (Suc n)
  let ?w = "delay 1000 (snd (fetch e w))"
  from Suc.prems have f0: "\<not> fetch_ok (responses e (fetches w))"
    by (metis add.right_neutral le0)
  have rest: "\<forall>i. i \<le> n \<longrightarrow> \<not> fetch_ok (responses e (fetches ?w + i))"
  proof (intro allI impI)
    fix i assume "i \<le> n"
    then have "Suc i \<le> Suc n" by simp
    with Suc.prems(2) have "\<not> fetch_ok (responses e (fetches w + Suc i))" by blast
    then show "\<not> fetch_ok (responses e (fetches ?w + i))" by simp
  qed
  from Suc.prems(1) have "(a + 1) + n = N" by simp
  from Suc.IH[OF this rest] f0 Suc.prems(1) show ?case
    by (subst poll_step, subst poll_step) simp
qed

lemma poll_first_ok:
  "a + k \<le> N \<Longrightarrow> (\<forall>i. i < k \<longrightarrow> \<not> fetch_ok (responses e (fetches w + i))) \<Longrightarrow>
   fetch_ok (responses e (fetches w + k)) \<Longrightarrow>
   fst (waitForServices_loop e N a w) = Resolved \<and>
   fetches (snd (waitForServices_loop e N a w)) = fetches w + (k + 1)"
proof (induction k arbitrary: a w)
  case 0
  then show ?case by (subst poll_step, subst poll_step) simp
next
  case (Suc k)
  let ?w = "delay 1000 (snd (fetch e w))"
  from Suc.prems have f0: "\<not> fetch_ok (responses e (fetches w))"
    by (metis add.right_neutral zero_less_Suc)
  have rest: "\<forall>i. i < k \<longrightarrow> \<not> fetch_ok (responses e (fetches ?w + i))"
  proof (intro allI impI)
    fix i assume "i < k"
    then have "Suc i < Suc k" by simp
    with Suc.prems(2) have "\<not> fetch_ok (responses e (fetches w + Suc i))" by blast
    then show "\<not> fetch_ok (responses e (fetches ?w + i))" by simp
  qed
  from Suc.prems(3) have ok: "fetch_ok (responses e (fetches ?w + k))" by simp
  from Suc.prems(1) have le: "(a + 1) + k \<le> N" by simp
  from Suc.IH[OF le rest ok] f0 Suc.prems(1) show ?case
    by (subst poll_step, subst poll_step) simp
qed

subsection \<open>Facts about start and about sequences of calls\<close>

lemma start_cases:
  obtains
    (pending) "fst (startRedis e w) = Pending" "start e w = (Pending, snd (startRedis e w))"
  | (redis_failed) err where "fst (startRedis e w) = Rejected err"
      "start e w = (Rejected err, stop (snd (startRedis e w)))"
  | (ready) "fst (startRedis e w) = Resolved"
      "start e w = (Resolved, snd (waitForServices e (spawned_all e w)))"
  | (poll_failed) err where "fst (startRedis e w) = Resolved"
      "fst (waitForServices e (spawned_all e w)) = Rejected err"
      "start e w = (Rejected err, stop (snd (waitForServices e (spawned_all e w))))"
proof -
  obtain r w1 where sr: "startRedis e w = (r, w1)" by (cases "startRedis e w")
  obtain q w5 where wf: "waitForServices e (spawned_all e w) = (q, w5)"
    by (cases "waitForServices e (spawned_all e w)")
  have "q \<noteq> Pending" using waitForServices_frame(6)[of e "spawned_all e w"] wf by simp
  then show ?thesis
    using sr wf that by (cases r; cases q) (simp_all add: start_def spawned_all_def Let_def)
qed

lemma start_flag: "isShuttingDown w \<Longrightarrow> isShuttingDown (snd (start e w))"
  by (cases rule: start_cases[of e w]) (simp_all add: stop_sets_flag)

lemma start_failed_flag: "fst (start e w) = Rejected err \<Longrightarrow> isShuttingDown (snd (start e w))"
  by (cases rule: start_cases[of e w]) (simp_all add: stop_sets_flag)

lemma start_kills:
  "isShuttingDown w \<Longrightarrow> kills (trace (snd (start e w))) = kills (trace w)"
  by (cases rule: start_cases[of e w])
    (simp_all add: stop_noop startRedis_kills kills_spawned_all del: spawned_all_fields(5))

lemma start_defined:
  "apiProcess w \<noteq> None \<Longrightarrow> apiProcess (snd (start e w)) \<noteq> None"
  "workerProcess w \<noteq> None \<Longrightarrow> workerProcess (snd (start e w)) \<noteq> None"
  "redisProcess w \<noteq> None \<Longrightarrow> redisProcess (snd (start e w)) \<noteq> None"
  by (cases rule: start_cases[of e w]; simp add: stop_defined startRedis_defined)+

lemma start_sigkill:
  "(t, Kill m SIGKILL True) \<notin> set (trace w) \<Longrightarrow>
   (t, Kill m SIGKILL True) \<notin> set (trace (snd (start e w)))"
  by (cases rule: start_cases[of e w]) (simp_all add: stop_sigkill startRedis_sigkill)

text \<open>
  A manager that is not shutting down holds no signalled process, whatever calls were
  made on it since it was created: \<^verbatim>\<open>kill\<close> is called by \<^verbatim>\<open>stop\<close> alone, which sets
  the flag first.
\<close>

lemma start_unsignalled:
  assumes "isShuttingDown w \<or> unsignalled w"
  shows "isShuttingDown (snd (start e w)) \<or> unsignalled (snd (start e w))"
proof (cases "isShuttingDown w")
  case True
  then show ?thesis by (simp add: start_flag)
next
  case False
  with assms have u: "unsignalled w" by simp
  show ?thesis
  proof (cases rule: start_cases[of e w])
    case pending
    with u startRedis_unsignalled[of w e] show ?thesis by (simp add: unsignalled_def)
  next
    case (redis_failed err)
    then show ?thesis by (simp add: stop_sets_flag)
  next
    case ready
    with u startRedis_unsignalled[of w e] show ?thesis
      by (simp add: unsignalled_def) (simp add: was_signalled_def spawn_def)
  next
    case (poll_failed err)
    then show ?thesis by (simp add: stop_sets_flag)
  qed
qed

lemma run_flag_kills:
  "isShuttingDown w \<Longrightarrow>
   isShuttingDown (run cs w) \<and> kills (trace (run cs w)) = kills (trace w)"
proof (induction cs w rule: run.induct)
  case (1 w)
  then show ?case by simp
next
  case (2 e cs w)
  then show ?case by (simp add: start_flag start_kills)
next
  case (3 cs w)
  then show ?case by (simp add: stop_noop)
qed

lemma run_defined:
  "(apiProcess w \<noteq> None \<longrightarrow> apiProcess (run cs w) \<noteq> None) \<and>
   (workerProcess w \<noteq> None \<longrightarrow> workerProcess (run cs w) \<noteq> None) \<and>
   (redisProcess w \<noteq> None \<longrightarrow> redisProcess (run cs w) \<noteq> None)"
proof (induction cs w rule: run.induct)
  case (1 w)
  then show ?case by simp
next
  case (2 e cs w)
  then show ?case using start_defined[of w e] by simp
next
  case (3 cs w)
  then show ?case using stop_defined[of w] by simp
qed

lemma run_unsignalled:
  "isShuttingDown w \<or> unsignalled w \<Longrightarrow>
   isShuttingDown (run cs w) \<or> unsignalled (run cs w)"
proof (induction cs w rule: run.induct)
  case (1 w)
  then show ?case by simp
next
  case (2 e cs w)
  from start_unsignalled[OF "2.prems"] show ?case using "2.IH" by simp
next
  case (3 cs w)
  have "isShuttingDown (stop w) \<or> unsignalled (stop w)" by (simp add: stop_sets_flag)
  then show ?case using "3.IH" by simp
qed

text \<open>
  No sequence of calls delivers SIGKILL: the timer's branch that calls
  \<^verbatim>\<open>kill('SIGKILL')\<close> runs only for a process that was already gone when SIGTERM was
  attempted.
\<close>

lemma sigkill_never_delivered:
  "(t, Kill m SIGKILL True) \<notin> set (trace w) \<Longrightarrow>
   (t, Kill m SIGKILL True) \<notin> set (trace (run cs w))"
  by (induction cs w rule: run.induct) (simp_all add: start_sigkill stop_sigkill)

subsection \<open>Facts about the stage-order monitor\<close>

lemma stage_order_all_kills:
  "\<forall>x\<in>set ks. is_kill (snd x) \<Longrightarrow> stage_order live wk ks"
proof (induction ks)
  case Nil
  then show ?case by simp
next
  case (Cons k ks)
  obtain t ev where k: "k = (t, ev)" by (cases k)
  with Cons.prems have "is_kill ev" by simp
  then obtain n s d where "ev = Kill n s d" by (cases ev) simp_all
  with k Cons show ?case by simp
qed

lemma stage_order_kills:
  "\<forall>x\<in>set ks. is_kill (snd x) \<Longrightarrow> stage_order live wk (xs @ ks) = stage_order live wk xs"
  by (induction live wk xs rule: stage_order.induct) (simp_all add: stage_order_all_kills)

lemma stage_order_spawned_all:
  assumes "fst (startRedis e w) = Resolved"
  shows "stage_order None False (events_since w (spawned_all e w))"
  using startRedis_resolved[OF assms] unfolding spawned_all_events
  by (auto simp add: settle_ms_def)

text \<open>The monitor rejects workers before the broker, workers before the settle delay is
  over, and an API server without workers.\<close>

lemma stage_order_rejects:
  "\<not> stage_order None False [(10, Spawned Workers), (20, RedisAlreadyRunning)]"
  "\<not> stage_order None False [(10, RedisAlreadyRunning), (2009, Spawned Workers)]"
  "\<not> stage_order None False [(10, RedisAlreadyRunning), (2010, Spawned ApiServer)]"
  by (simp_all add: settle_ms_def)

subsection \<open>Concrete runs\<close>

lemmas model_defs =
  start_def startRedis_def startWorkers_def startApiServer_def waitForServices_def
  stop_def terminate_def await_exit_def on_timeout_def kill_def kill_returns_def spawn_def
  gone_def redis_timed_out_def redis_timeout_ms_def grace_ms_def emit_def delay_def fetch_def
  fetch_ok_def readiness_error_def healthCheck_def client_healthCheck_def

lemmas example_defs =
  new_manager_def obedient_def stubborn_def env_up_def env_refused_def env_slow_def env_stubborn_def
  env_spawn_redis_def three_stubborn_def one_stubborn_def three_obedient_def

lemma string_of_30: "string_of_nat 30 = ''30''"
  by code_simp

lemma start_refused_new:
  "start env_refused new_manager =
     (Rejected (McpError InternalError ''Firecrawl API server failed to respond after 30 seconds''),
      \<lparr>redisProcess = None,
       workerProcess = Some \<lparr>killed = True, exited = True, term_exit_after = Some 100\<rparr>,
       apiProcess = Some \<lparr>killed = True, exited = True, term_exit_after = Some 100\<rparr>,
       isShuttingDown = True, clock = 31210,
       trace = [(10, RedisAlreadyRunning), (2010, Spawned Workers), (2010, Spawned ApiServer),
                (31010, Kill ApiServer SIGTERM True), (31110, Kill Workers SIGTERM True)],
       fetches = 30\<rparr>)"
  by (simp add: model_defs example_defs poll_step string_of_30)

lemma start_stubborn_new:
  "start env_stubborn new_manager =
     (Rejected (McpError InternalError ''Firecrawl API server failed to respond after 30 seconds''),
      \<lparr>redisProcess = None,
       workerProcess = Some \<lparr>killed = True, exited = False, term_exit_after = None\<rparr>,
       apiProcess = Some \<lparr>killed = True, exited = False, term_exit_after = None\<rparr>,
       isShuttingDown = True, clock = 41010,
       trace = [(10, RedisAlreadyRunning), (2010, Spawned Workers), (2010, Spawned ApiServer),
                (31010, Kill ApiServer SIGTERM True), (36010, Kill Workers SIGTERM True)],
       fetches = 30\<rparr>)"
  by (simp add: model_defs example_defs poll_step string_of_30)

lemma stop_three_obedient:
  "stop three_obedient =
     \<lparr>redisProcess = Some \<lparr>killed = True, exited = True, term_exit_after = Some 100\<rparr>,
      workerProcess = Some \<lparr>killed = True, exited = True, term_exit_after = Some 100\<rparr>,
      apiProcess = Some \<lparr>killed = True, exited = True, term_exit_after = Some 100\<rparr>,
      isShuttingDown = True, clock = 300,
      trace = [(0, Kill ApiServer SIGTERM True), (100, Kill Workers SIGTERM True),
               (200, Kill Redis SIGTERM True)],
      fetches = 0\<rparr>"
  by (simp add: model_defs example_defs)

lemma start_slow_after_stop:
  "start env_slow (stop three_obedient) =
     (Rejected (McpError InternalError ''Firecrawl API server failed to respond after 30 seconds''),
      \<lparr>redisProcess = Some \<lparr>killed = True, exited = True, term_exit_after = Some 100\<rparr>,
       workerProcess = Some \<lparr>killed = False, exited = False, term_exit_after = Some 100\<rparr>,
       apiProcess = Some \<lparr>killed = False, exited = False, term_exit_after = Some 100\<rparr>,
       isShuttingDown = True, clock = 121310,
       trace = [(0, Kill ApiServer SIGTERM True), (100, Kill Workers SIGTERM True),
                (200, Kill Redis SIGTERM True), (310, RedisAlreadyRunning),
                (2310, Spawned Workers), (2310, Spawned ApiServer)],
       fetches = 30\<rparr>)"
  unfolding stop_three_obedient
  by (simp add: model_defs example_defs poll_step string_of_30)

lemma start_up_new:
  "start env_up new_manager =
     (Resolved,
      \<lparr>redisProcess = None,
       workerProcess = Some \<lparr>killed = False, exited = False, term_exit_after = Some 100\<rparr>,
       apiProcess = Some \<lparr>killed = False, exited = False, term_exit_after = Some 100\<rparr>,
       isShuttingDown = False, clock = 2010,
       trace = [(10, RedisAlreadyRunning), (2010, Spawned Workers), (2010, Spawned ApiServer)],
       fetches = 1\<rparr>)"
  by (simp add: model_defs example_defs poll_step)

lemma start_spawn_redis_new:
  "start env_spawn_redis new_manager =
     (Resolved,
      \<lparr>redisProcess = Some \<lparr>killed = False, exited = False, term_exit_after = Some 100\<rparr>,
       workerProcess = Some \<lparr>killed = False, exited = False, term_exit_after = Some 100\<rparr>,
       apiProcess = Some \<lparr>killed = False, exited = False, term_exit_after = Some 100\<rparr>,
       isShuttingDown = False, clock = 5330,
       trace = [(10, Spawned Redis), (310, RedisReady), (2310, Spawned Workers),
                (2310, Spawned ApiServer)],
       fetches = 4\<rparr>)"
  by (simp add: model_defs example_defs poll_step)

subsection \<open>Rollback of a failed start\<close>

text \<open>
  What the \<^verbatim>\<open>catch\<close> block of \<^verbatim>\<open>start\<close> achieves for the three fields: on a manager
  that is not shutting down and holds no signalled process, a \<^verbatim>\<open>start\<close> that fails has
  run \<^verbatim>\<open>stop\<close>, and a process that a field holds and that is still running has been
  sent SIGTERM and does not exit on SIGTERM within the grace period.
\<close>

lemma failed_start_runs_stop:
  assumes "\<not> isShuttingDown w" and "unsignalled w" and "fst (start e w) = Rejected err"
  shows "isShuttingDown (snd (start e w)) \<and>
    (left_running (apiProcess (snd (start e w))) \<longrightarrow>
       was_signalled (apiProcess (snd (start e w))) \<and>
       \<not> honours_sigterm (apiProcess (snd (start e w)))) \<and>
    (left_running (workerProcess (snd (start e w))) \<longrightarrow>
       was_signalled (workerProcess (snd (start e w))) \<and>
       \<not> honours_sigterm (workerProcess (snd (start e w)))) \<and>
    (left_running (redisProcess (snd (start e w))) \<longrightarrow>
       was_signalled (redisProcess (snd (start e w))) \<and>
       \<not> honours_sigterm (redisProcess (snd (start e w))))"
proof (cases rule: start_cases[of e w])
  case pending
  with assms(3) show ?thesis by simp
next
  case (redis_failed err')
  let ?w1 = "snd (startRedis e w)"
  have f: "\<not> isShuttingDown ?w1" using assms(1) by simp
  have u: "\<not> was_signalled (apiProcess ?w1)" "\<not> was_signalled (workerProcess ?w1)"
    "\<not> was_signalled (redisProcess ?w1)"
    using assms(2) startRedis_unsignalled[of w e] by (simp_all add: unsignalled_def)
  show ?thesis
    using stop_result[OF f] u redis_failed(2) by (simp add: stop_sets_flag)
next
  case ready
  with assms(3) show ?thesis by simp
next
  case (poll_failed err')
  let ?w5 = "snd (waitForServices e (spawned_all e w))"
  have f: "\<not> isShuttingDown ?w5" using assms(1) by simp
  have u: "\<not> was_signalled (apiProcess ?w5)" "\<not> was_signalled (workerProcess ?w5)"
    "\<not> was_signalled (redisProcess ?w5)"
    using assms(2) startRedis_unsignalled[of w e]
    by (simp_all add: unsignalled_def was_signalled_def spawn_def)
  show ?thesis
    using stop_result[OF f] u poll_failed(3) by (simp add: stop_sets_flag)
qed

text \<open>
  C1, on the code: on a new manager, with Redis already running, workers and an API
  server that ignore SIGTERM and an API server that never answers, \<^verbatim>\<open>start\<close> fails
  after thirty requests and runs \<^verbatim>\<open>stop\<close>, which sends SIGTERM to the API server and to
  the workers, waits one grace period for each and never calls
  \<^verbatim>\<open>kill('SIGKILL')\<close>: when \<^verbatim>\<open>start\<close> has returned its error, both processes are
  still running.
\<close>

theorem failed_start_leaves_stubborn_running:
  "start env_stubborn new_manager =
     (Rejected (McpError InternalError ''Firecrawl API server failed to respond after 30 seconds''),
      \<lparr>redisProcess = None,
       workerProcess = Some \<lparr>killed = True, exited = False, term_exit_after = None\<rparr>,
       apiProcess = Some \<lparr>killed = True, exited = False, term_exit_after = None\<rparr>,
       isShuttingDown = True, clock = 41010,
       trace = [(10, RedisAlreadyRunning), (2010, Spawned Workers), (2010, Spawned ApiServer),
                (31010, Kill ApiServer SIGTERM True), (36010, Kill Workers SIGTERM True)],
       fetches = 30\<rparr>) \<and>
   left_running (workerProcess (snd (start env_stubborn new_manager))) \<and>
   left_running (apiProcess (snd (start env_stubborn new_manager)))"
  by (simp add: start_stubborn_new left_running_def)

subsection \<open>Duration of stop\<close>

text \<open>
  C2, as stated, fails: with three processes that ignore SIGTERM, the workers are
  signalled only when the grace period of the API server is over, Redis only when that
  of the workers is over, and \<^verbatim>\<open>stop\<close> takes three grace periods, 15000 ms.
\<close>

theorem stop_three_stubborn_sequential:
  "clock (stop three_stubborn) = 15000 \<and>
   trace (stop three_stubborn) =
     [(0, Kill ApiServer SIGTERM True), (5000, Kill Workers SIGTERM True),
      (10000, Kill Redis SIGTERM True)]"
  by (simp add: model_defs example_defs)

text \<open>
  C2, as amended. A \<^verbatim>\<open>stop\<close> on a manager that is not yet shutting down handles the
  processes one after the other, in the order API server, workers, Redis: the calls of
  \<^verbatim>\<open>kill\<close> it makes are those for the API server at the start, then those for the
  workers from the instant the wait for the API server has ended, then those for Redis
  from the instant the wait for the workers has ended; every held process that was not
  signalled before gets SIGTERM. Its duration is the sum of the three waits, each at most
  the grace period, so at most three grace periods.
\<close>

theorem stop_sequential:
  "\<not> isShuttingDown w \<Longrightarrow>
   events_since w (stop w) =
     term_events ApiServer (apiProcess w) (clock w) @
     term_events Workers (workerProcess w) (clock w + grace_wait (apiProcess w)) @
     term_events Redis (redisProcess w)
       (clock w + grace_wait (apiProcess w) + grace_wait (workerProcess w)) \<and>
   clock (stop w) =
     clock w + grace_wait (apiProcess w) + grace_wait (workerProcess w) +
       grace_wait (redisProcess w) \<and>
   clock (stop w) \<le> clock w + 3 * grace_ms"
proof -
  assume a: "\<not> isShuttingDown w"
  have ev: "events_since w (stop w) =
     term_events ApiServer (apiProcess w) (clock w) @
     term_events Workers (workerProcess w) (clock w + grace_wait (apiProcess w)) @
     term_events Redis (redisProcess w)
       (clock w + grace_wait (apiProcess w) + grace_wait (workerProcess w))"
    by (rule events_since_append[OF stop_events[OF a]])
  have le: "clock (stop w) \<le> clock w + 3 * grace_ms"
    using grace_wait_le[of "apiProcess w"] grace_wait_le[of "workerProcess w"]
      grace_wait_le[of "redisProcess w"] by (simp add: stop_clock[OF a])
  from ev le stop_clock[OF a] show ?thesis by blast
qed

text \<open>
  C2, as amended, at three processes that each exit 100 ms after SIGTERM: the signals
  go out at 0, 100 and 200 ms and \<^verbatim>\<open>stop\<close> returns at 300 ms.
\<close>

theorem stop_sequential_witness:
  "\<not> isShuttingDown three_obedient \<and>
   events_since three_obedient (stop three_obedient) =
     [(0, Kill ApiServer SIGTERM True), (100, Kill Workers SIGTERM True),
      (200, Kill Redis SIGTERM True)] \<and>
   clock (stop three_obedient) = 300 \<and>
   clock (stop three_obedient) \<le> 15000"
proof -
  have a: "\<not> isShuttingDown three_obedient" by (simp add: three_obedient_def)
  have g: "grace_wait (Some obedient) = 100"
    by (simp add: grace_wait_def obedient_def grace_ms_def)
  have t: "term_events n (Some obedient) k = [(k, Kill n SIGTERM True)]" for n k
    by (simp add: term_events_def obedient_def)
  from stop_sequential[OF a] a g t show ?thesis
    by (simp add: three_obedient_def grace_ms_def)
qed

subsection \<open>Escalation to SIGKILL\<close>

text \<open>
  C3, on the code: for a running API server that ignores SIGTERM, \<^verbatim>\<open>stop\<close> sends
  SIGTERM at time 0, waits the grace period and returns at 5000 ms without any call of
  \<^verbatim>\<open>kill('SIGKILL')\<close>; the process is still there.
\<close>

theorem stop_one_stubborn_no_sigkill:
  "stop one_stubborn =
     \<lparr>redisProcess = None, workerProcess = None,
      apiProcess = Some \<lparr>killed = True, exited = False, term_exit_after = None\<rparr>,
      isShuttingDown = True, clock = 5000,
      trace = [(0, Kill ApiServer SIGTERM True)], fetches = 0\<rparr>"
  by (simp add: model_defs example_defs)

subsection \<open>Bounded readiness polling\<close>

text \<open>
  C4, as stated, fails on the elapsed duration: two runs of \<^verbatim>\<open>waitForServices\<close> whose
  thirty requests all fail, one lasting 29000 ms and one 119000 ms, reject with the same
  error, whose message is built from the constant 30 alone.
\<close>

theorem readiness_error_without_elapsed:
  "fst (waitForServices env_refused new_manager) =
     Rejected (McpError InternalError ''Firecrawl API server failed to respond after 30 seconds'') \<and>
   clock (snd (waitForServices env_refused new_manager)) = 29000 \<and>
   fst (waitForServices env_slow new_manager) =
     Rejected (McpError InternalError ''Firecrawl API server failed to respond after 30 seconds'') \<and>
   clock (snd (waitForServices env_slow new_manager)) = 119000"
proof -
  have s: "string_of_nat 30 = ''30''" by code_simp
  show ?thesis
    by (simp add: waitForServices_def poll_step env_refused_def env_slow_def new_manager_def
        fetch_ok_def readiness_error_def s)
qed

text \<open>
  C4, as amended. With a bound \<open>N\<close> of at least one attempt (the code fixes 30): when
  none of the next \<open>N\<close> requests is answered with an ok response, the loop sends exactly
  \<open>N\<close> requests and rejects with an \<^verbatim>\<open>InternalError\<close> whose message names \<open>N\<close>; when
  the request number \<open>k\<close> is the first with an ok response, the loop resolves after
  exactly \<open>k + 1\<close> requests.
\<close>

theorem poll_bounded:
  assumes "0 < N"
  shows "((\<forall>i<N. \<not> fetch_ok (responses e (fetches w + i))) \<longrightarrow>
            fst (waitForServices_loop e N 1 w) =
              Rejected (McpError InternalError
                (''Firecrawl API server failed to respond after '' @ string_of_nat N @ '' seconds'')) \<and>
            fetches (snd (waitForServices_loop e N 1 w)) = fetches w + N) \<and>
         (\<forall>k<N. (\<forall>i<k. \<not> fetch_ok (responses e (fetches w + i))) \<and>
                  fetch_ok (responses e (fetches w + k)) \<longrightarrow>
            fst (waitForServices_loop e N 1 w) = Resolved \<and>
            fetches (snd (waitForServices_loop e N 1 w)) = fetches w + k + 1) \<and>
         waitForServices e w = waitForServices_loop e 30 1 w"
proof (intro conjI impI allI)
  assume fail: "\<forall>i<N. \<not> fetch_ok (responses e (fetches w + i))"
  from assms have n: "1 + (N - 1) = N" by simp
  from fail have "\<forall>i. i \<le> N - 1 \<longrightarrow> \<not> fetch_ok (responses e (fetches w + i))"
    using assms by auto
  from poll_all_fail[OF n this] assms
  show "fst (waitForServices_loop e N 1 w) =
      Rejected (McpError InternalError
        (''Firecrawl API server failed to respond after '' @ string_of_nat N @ '' seconds''))"
    and "fetches (snd (waitForServices_loop e N 1 w)) = fetches w + N"
    by (simp_all add: readiness_error_def)
next
  fix k
  assume k: "k < N"
    and h: "(\<forall>i<k. \<not> fetch_ok (responses e (fetches w + i))) \<and> fetch_ok (responses e (fetches w + k))"
  from k have le: "1 + k \<le> N" by simp
  from h have a: "\<forall>i. i < k \<longrightarrow> \<not> fetch_ok (responses e (fetches w + i))"
    and b: "fetch_ok (responses e (fetches w + k))" by simp_all
  from poll_first_ok[OF le a b]
  show "fst (waitForServices_loop e N 1 w) = Resolved" and "fetches (snd (waitForServices_loop e N 1 w)) = fetches w + k + 1"
    by simp_all
next
  show "waitForServices e w = waitForServices_loop e 30 1 w" by (simp add: waitForServices_def)
qed

text \<open>
  C4, as amended, at the bound 30 of the code: thirty refused requests and the error,
  and success at the fourth request after three answers 503.
\<close>

theorem poll_bounded_witness:
  "fst (waitForServices env_refused new_manager) =
     Rejected (McpError InternalError ''Firecrawl API server failed to respond after 30 seconds'') \<and>
   fetches (snd (waitForServices env_refused new_manager)) = 30 \<and>
   fst (waitForServices env_spawn_redis new_manager) = Resolved \<and>
   fetches (snd (waitForServices env_spawn_redis new_manager)) = 4"
proof -
  have n: "(0::nat) < 30" by simp
  have s: "string_of_nat 30 = ''30''" by code_simp
  have f0: "fetches new_manager = 0" by (simp add: new_manager_def)
  have fail: "\<forall>i<30. \<not> fetch_ok (responses env_refused (fetches new_manager + i))"
    by (simp add: env_refused_def fetch_ok_def)
  have ok: "(\<forall>i<3. \<not> fetch_ok (responses env_spawn_redis (fetches new_manager + i))) \<and>
      fetch_ok (responses env_spawn_redis (fetches new_manager + 3))"
    by (simp add: env_spawn_redis_def fetch_ok_def f0)
  note a = mp[OF conjunct1[OF poll_bounded[OF n, of env_refused new_manager]] fail]
  note b = mp[OF mp[OF spec[OF conjunct1[OF conjunct2[OF
             poll_bounded[OF n, of env_spawn_redis new_manager]]], of 3]] ok]
  have b': "fst (waitForServices_loop env_spawn_redis 30 1 new_manager) = Resolved \<and>
      fetches (snd (waitForServices_loop env_spawn_redis 30 1 new_manager)) = fetches new_manager + 3 + 1"
    by (rule b) simp
  show ?thesis
    unfolding waitForServices_def using a b' by (simp only: s f0) simp
qed

subsection \<open>Idempotent stop\<close>

text \<open>
  C5. \<^verbatim>\<open>stop\<close> is idempotent: a second \<^verbatim>\<open>stop\<close> changes nothing, it sends no signal
  and takes no time; so does every \<^verbatim>\<open>stop\<close> on a manager that is shutting down, and
  every \<^verbatim>\<open>stop\<close> after a \<^verbatim>\<open>start\<close> that failed.
\<close>

theorem stop_idempotent:
  "stop (stop w) = stop w \<and>
   (isShuttingDown w \<longrightarrow> stop w = w) \<and>
   (fst (start e w) = Rejected err \<longrightarrow> stop (snd (start e w)) = snd (start e w))"
  by (simp add: stop_noop stop_sets_flag start_failed_flag)

text \<open>
  C5, at three running processes stopped twice, and at a \<^verbatim>\<open>stop\<close> after a
  \<^verbatim>\<open>start\<close> that failed on readiness.
\<close>

theorem stop_idempotent_witness:
  "isShuttingDown (stop three_obedient) \<and>
   stop (stop three_obedient) = stop three_obedient \<and>
   fst (start env_refused new_manager) =
     Rejected (McpError InternalError ''Firecrawl API server failed to respond after 30 seconds'') \<and>
   stop (snd (start env_refused new_manager)) = snd (start env_refused new_manager)"
proof -
  have a: "isShuttingDown (stop three_obedient)" by (simp add: stop_three_obedient)
  have c: "fst (start env_refused new_manager) =
     Rejected (McpError InternalError ''Firecrawl API server failed to respond after 30 seconds'')"
    by (simp add: start_refused_new)
  from stop_idempotent[of "stop three_obedient"] a
    stop_idempotent[of new_manager env_refused
      "McpError InternalError ''Firecrawl API server failed to respond after 30 seconds''"] c
  show ?thesis by blast
qed

subsection \<open>Settle delay\<close>

text \<open>
  C6, as stated, fails: the API server is spawned at the same instant as the workers,
  with no settle delay after the worker stage.
\<close>

theorem no_delay_after_workers:
  "trace (snd (start env_up new_manager)) =
     [(10, RedisAlreadyRunning), (2010, Spawned Workers), (2010, Spawned ApiServer)]"
  by (simp add: start_up_new)

text \<open>
  C6, as amended. When the broker stage has succeeded, the next two events of
  \<^verbatim>\<open>start\<close> are the spawn of the workers, exactly 2000 ms later, and the spawn of the
  API server at that same instant.
\<close>

theorem settle_delay_after_broker_only:
  assumes "fst (startRedis e w) = Resolved"
  shows "take 2 (events_since (snd (startRedis e w)) (snd (start e w))) =
     [(clock (snd (startRedis e w)) + 2000, Spawned Workers),
      (clock (snd (startRedis e w)) + 2000, Spawned ApiServer)]"
proof (cases rule: start_cases[of e w])
  case pending
  with assms show ?thesis by simp
next
  case (redis_failed err)
  with assms show ?thesis by simp
next
  case ready
  then show ?thesis by (simp add: events_since_def)
next
  case (poll_failed err)
  let ?w5 = "snd (waitForServices e (spawned_all e w))"
  obtain ks where ks: "trace (stop ?w5) = trace ?w5 @ ks"
    using stop_trace by blast
  with poll_failed(3) show ?thesis by (simp add: events_since_def)
qed

text \<open>
  C6, as amended, at a Redis server that is spawned and ready at 310 ms.
\<close>

theorem settle_delay_after_broker_only_witness:
  "fst (startRedis env_spawn_redis new_manager) = Resolved \<and>
   take 2 (events_since (snd (startRedis env_spawn_redis new_manager))
             (snd (start env_spawn_redis new_manager))) =
     [(2310, Spawned Workers), (2310, Spawned ApiServer)]"
proof -
  have a: "fst (startRedis env_spawn_redis new_manager) = Resolved"
    by (simp add: model_defs example_defs)
  have c: "clock (snd (startRedis env_spawn_redis new_manager)) = 310"
    by (simp add: model_defs example_defs)
  from settle_delay_after_broker_only[OF a] a c show ?thesis by simp
qed

subsection \<open>Order of the stages\<close>

text \<open>
  C7. In the events of every \<^verbatim>\<open>start\<close>, the workers are spawned only after the broker
  was found alive (already running, or spawned and ready) and the settle delay has
  passed, and the API server only after the workers.
\<close>

theorem stage_order_respected:
  "stage_order None False (events_since w (snd (start e w)))"
proof (cases rule: start_cases[of e w])
  case pending
  then have "fst (startRedis e w) \<noteq> Resolved" by simp
  from startRedis_not_resolved[OF this] pending(2) show ?thesis by auto
next
  case (redis_failed err)
  let ?w1 = "snd (startRedis e w)"
  obtain ks where ks: "trace (stop ?w1) = trace ?w1 @ ks" "\<forall>x\<in>set ks. is_kill (snd x)"
    using stop_trace by blast
  have tr: "trace (stop ?w1) = trace w @ (events_since w ?w1 @ ks)"
    using ks(1) startRedis_trace[of e w] by simp
  from redis_failed(1) have "fst (startRedis e w) \<noteq> Resolved" by simp
  from startRedis_not_resolved[OF this] have "stage_order None False (events_since w ?w1)"
    by auto
  then show ?thesis
    using redis_failed(2) events_since_append[OF tr] stage_order_kills[OF ks(2)] by simp
next
  case ready
  have "events_since w (snd (waitForServices e (spawned_all e w))) = events_since w (spawned_all e w)"
    by (simp add: events_since_def)
  with stage_order_spawned_all[OF ready(1)] ready(2) show ?thesis by simp
next
  case (poll_failed err)
  let ?w5 = "snd (waitForServices e (spawned_all e w))"
  obtain ks where ks: "trace (stop ?w5) = trace ?w5 @ ks" "\<forall>x\<in>set ks. is_kill (snd x)"
    using stop_trace by blast
  have tr: "trace (stop ?w5) = trace w @ (events_since w (spawned_all e w) @ ks)"
    using ks(1) spawned_all_trace[of e w] by (simp del: spawned_all_fields(5))
  show ?thesis
    using poll_failed(3) events_since_append[OF tr] stage_order_kills[OF ks(2)]
      stage_order_spawned_all[OF poll_failed(1)] by simp
qed

text \<open>
  C7, at a Redis server that is spawned and ready at 310 ms.
\<close>

theorem stage_order_respected_witness:
  "stage_order None False
     [(10, Spawned Redis), (310, RedisReady), (2310, Spawned Workers), (2310, Spawned ApiServer)]"
proof -
  have "events_since new_manager (snd (start env_spawn_redis new_manager)) =
      [(10, Spawned Redis), (310, RedisReady), (2310, Spawned Workers), (2310, Spawned ApiServer)]"
    by (simp add: start_spawn_redis_new events_since_def) (simp add: new_manager_def)
  with stage_order_respected[of new_manager env_spawn_redis] show ?thesis by simp
qed

subsection \<open>Process handles\<close>

text \<open>
  C8, as stated, fails: after \<^verbatim>\<open>stop\<close> has seen the API server exit (100 ms after
  SIGTERM), \<^verbatim>\<open>apiProcess\<close> still holds the object of the exited process.
\<close>

theorem handle_kept_after_exit:
  "apiProcess (stop three_obedient) =
     Some \<lparr>killed = True, exited = True, term_exit_after = Some 100\<rparr>"
  by (simp add: stop_three_obedient)

text \<open>
  C8, as amended. A process field that holds a \<^verbatim>\<open>ChildProcess\<close> holds one after every
  sequence of calls of \<^verbatim>\<open>start\<close> and \<^verbatim>\<open>stop\<close>: no call clears a field, whether or not
  the process has exited.
\<close>

theorem handles_never_cleared:
  "(apiProcess w \<noteq> None \<longrightarrow> apiProcess (run cs w) \<noteq> None) \<and>
   (workerProcess w \<noteq> None \<longrightarrow> workerProcess (run cs w) \<noteq> None) \<and>
   (redisProcess w \<noteq> None \<longrightarrow> redisProcess (run cs w) \<noteq> None)"
  by (rule run_defined)

text \<open>
  C8, as amended, at three running processes, stopped and started again.
\<close>

theorem handles_never_cleared_witness:
  "apiProcess three_obedient \<noteq> None \<and> workerProcess three_obedient \<noteq> None \<and>
   redisProcess three_obedient \<noteq> None \<and>
   apiProcess (run [Stop, Start env_refused] three_obedient) \<noteq> None \<and>
   workerProcess (run [Stop, Start env_refused] three_obedient) \<noteq> None \<and>
   redisProcess (run [Stop, Start env_refused] three_obedient) \<noteq> None"
proof -
  have a: "apiProcess three_obedient \<noteq> None" "workerProcess three_obedient \<noteq> None"
    "redisProcess three_obedient \<noteq> None"
    by (simp_all add: three_obedient_def)
  from handles_never_cleared[of three_obedient "[Stop, Start env_refused]"] a
  show ?thesis by blast
qed

subsection \<open>Health check\<close>

text \<open>
  C9. \<^verbatim>\<open>healthCheck\<close>, of the manager and of the client, sends exactly one request,
  never rejects, and returns true exactly when the request is answered with a status
  from 200 to 299; a failed request (refused connection, timeout) gives false. It sends
  no signal and spawns nothing.
\<close>

theorem healthCheck_single_probe:
  "fst (healthCheck e w) =
     Inr (case responses e (fetches w) of
            Response status \<Rightarrow> 200 \<le> status \<and> status \<le> 299
          | FetchFailed \<Rightarrow> False) \<and>
   fetches (snd (healthCheck e w)) = fetches w + 1 \<and>
   trace (snd (healthCheck e w)) = trace w \<and>
   fst (client_healthCheck e w) =
     Inr (case responses e (fetches w) of
            Response status \<Rightarrow> 200 \<le> status \<and> status \<le> 299
          | FetchFailed \<Rightarrow> False) \<and>
   fetches (snd (client_healthCheck e w)) = fetches w + 1"
  by (simp add: healthCheck_def client_healthCheck_def fetch_def delay_def
      split: fetch_result.splits)

text \<open>
  C9, at concrete environments: an answer 200 gives true, an answer 503 false, a refused
  connection false after one request.
\<close>

theorem healthCheck_single_probe_witness:
  "fst (healthCheck env_up new_manager) = Inr True \<and>
   fst (healthCheck env_spawn_redis new_manager) = Inr False \<and>
   fst (healthCheck env_refused new_manager) = Inr False \<and>
   fetches (snd (healthCheck env_refused new_manager)) = 1"
  using healthCheck_single_probe[of env_up new_manager]
    healthCheck_single_probe[of env_spawn_redis new_manager]
    healthCheck_single_probe[of env_refused new_manager]
  by (simp add: env_up_def env_spawn_redis_def env_refused_def new_manager_def)

subsection \<open>The shutting-down flag\<close>

text \<open>
  C10. \<^verbatim>\<open>isShuttingDown\<close> is set by \<^verbatim>\<open>stop\<close> and never cleared: once it is set, it
  stays set through every sequence of calls of \<^verbatim>\<open>start\<close> and \<^verbatim>\<open>stop\<close>, and no such
  call sends a signal any more. In particular a later \<^verbatim>\<open>start\<close> that fails rolls nothing
  back.
\<close>

theorem shutting_down_monotone:
  "isShuttingDown (stop w) \<and>
   (isShuttingDown w \<longrightarrow>
      isShuttingDown (run cs w) \<and> kills (trace (run cs w)) = kills (trace w))"
  using run_flag_kills[of w cs] by (simp add: stop_sets_flag)

text \<open>
  C10, at a manager stopped once: a later \<^verbatim>\<open>start\<close> fails on readiness, sends no
  signal and leaves the API server it spawned running.
\<close>

theorem shutting_down_monotone_witness:
  "isShuttingDown (stop three_obedient) \<and>
   fst (start env_slow (stop three_obedient)) =
     Rejected (McpError InternalError ''Firecrawl API server failed to respond after 30 seconds'') \<and>
   isShuttingDown (run [Start env_slow] (stop three_obedient)) \<and>
   kills (trace (run [Start env_slow] (stop three_obedient))) = kills (trace (stop three_obedient)) \<and>
   left_running (apiProcess (run [Start env_slow] (stop three_obedient)))"
proof -
  have a: "isShuttingDown (stop three_obedient)" by (simp add: stop_three_obedient)
  have c: "fst (start env_slow (stop three_obedient)) =
     Rejected (McpError InternalError ''Firecrawl API server failed to respond after 30 seconds'')"
    by (simp add: start_slow_after_stop)
  have l: "left_running (apiProcess (run [Start env_slow] (stop three_obedient)))"
    by (simp add: start_slow_after_stop left_running_def)
  from shutting_down_monotone[of "three_obedient" "[Start env_slow]"]
    shutting_down_monotone[of "stop three_obedient" "[Start env_slow]"] a c l
  show ?thesis by blast
qed

end
